theory Spec2Isabelle
  imports Complex_Main
begin

unbundle bit_operations_syntax

section \<open>Data model\<close>

text \<open>
  The controlling routine \<open>OutlierDetectionSpec.do_detection\<close> of
  \<open>jwst/outlier_detection/outlier_detection_spec.py\<close> works on Python objects that are
  shared by reference: the container of input models, the container of drizzled models
  (which is the very same container when \<open>resample_data\<close> is not \<open>True\<close>), and the
  \<open>meta\<close> node that the median model takes over from the first drizzled model.
  Objects therefore live in an explicit store and are named by addresses.

  A pixel is a real number or non-finite (\<open>None\<close>); images are lists of rows.
\<close>

type_synonym addr = nat
type_synonym pixel = "real option"
type_synonym image = "pixel list list"
type_synonym weight_map = "real list list"
type_synonym dq_array = "nat list list"

record metadata =
  filename :: string
  exposure_time :: real

record model =
  data :: image
  dq :: dq_array
  wht :: weight_map
  meta :: addr

text \<open>The keyword arguments \<open>kwargs\<close> that \<open>do_detection\<close> reads.\<close>

record config =
  resample_data :: bool
  save_intermediate_results :: bool
  in_memory :: bool
  weight_type :: string
  good_bits :: string
  maskpt :: real
  snr :: "real \<times> real"
  scale :: "real \<times> real"
  backg :: real

datatype error =
    ConfigError
  | ResampleError
  | IndexError
  | CombineError
  | PersistenceError
  | PerExposureError

text \<open>
  What a run does to the outside world, in the order it does it: the resampler was run,
  a drizzled model was saved under a name, \<open>create_median\<close> has returned the median
  image, the median model was saved, \<open>_remove_file\<close> was called on a container entry,
  the outlier comparison ran on the exposure with a given index, a failure on one
  exposure was reported, a line was logged.
\<close>

datatype event =
    Resampled
  | Saved_model addr string
  | Median_created
  | Saved_median string
  | Removed_file addr
  | Compared nat
  | Reported nat error
  | Log_info string
  | Log_removing addr

record store =
  models :: "addr \<Rightarrow> model"
  metas :: "addr \<Rightarrow> metadata"
  next_addr :: addr
  storage :: "addr set"
  trace :: "event list"

text \<open>A model as a callee sees it: its fields together with the contents of its metadata.\<close>

definition view :: "store \<Rightarrow> addr \<Rightarrow> model \<times> metadata" where
  "view s a = (models s a, metas s (meta (models s a)))"

definition shape :: "'a list list \<Rightarrow> nat \<times> nat" where
  "shape img = (length img, (case img of [] \<Rightarrow> 0 | r # _ \<Rightarrow> length r))"

definition zeros :: "nat \<times> nat \<Rightarrow> 'a \<Rightarrow> 'a list list" where
  "zeros sh z = replicate (fst sh) (replicate (snd sh) z)"

section \<open>Collaborators of the controlling routine\<close>

text \<open>
  \<open>do_detection\<close> calls functions that live in other modules (\<open>resample_spec\<close>,
  \<open>resample_utils\<close>, \<open>utils\<close>, the data models) or arrive in \<open>kwargs\<close>
  (\<open>make_output_path\<close>). They are parameters of the embedding. A callee that can raise
  returns an error value; \<open>detect_outliers\<close>, which works in place on the quality
  arrays of the input models, returns the quality array of every exposure as it leaves
  them, what it did in order (the exposures it ran the comparison on, the failures it
  reported), and the exception it raised, if any.
\<close>

datatype detect_event = Compare_exposure nat | Report_error nat error

fun event_of :: "detect_event \<Rightarrow> event" where
  "event_of (Compare_exposure i) = Compared i"
| "event_of (Report_error i e) = Reported i e"

record mosaic =
  mosaic_data :: image
  mosaic_dq :: dq_array
  mosaic_wht :: weight_map
  mosaic_meta :: metadata

record detection =
  new_dq :: "dq_array list"
  detect_log :: "detect_event list"
  raised :: "error option"

record collaborators =
  convert_inputs :: "config \<Rightarrow> error option"
  do_drizzle :: "config \<Rightarrow> (model \<times> metadata) list \<Rightarrow> error + mosaic list"
  make_output_path :: "string \<Rightarrow> string \<Rightarrow> string"
  save :: "string \<Rightarrow> error option"
  build_driz_weight :: "model \<times> metadata \<Rightarrow> string \<Rightarrow> string \<Rightarrow> weight_map"
  create_median :: "(model \<times> metadata) list \<Rightarrow> real \<Rightarrow> error + image"
  detect_outliers :: "(model \<times> metadata) list \<Rightarrow> model \<times> metadata \<Rightarrow> real \<times> real
      \<Rightarrow> real \<times> real \<Rightarrow> real \<Rightarrow> bool \<Rightarrow> detection"

section \<open>The controlling routine\<close>

definition log_info :: "string \<Rightarrow> store \<Rightarrow> store" where
  "log_info msg s = s\<lparr>trace := trace s @ [Log_info msg]\<rparr>"

definition emit :: "event \<Rightarrow> store \<Rightarrow> store" where
  "emit e s = s\<lparr>trace := trace s @ [e]\<rparr>"

definition set_filename :: "addr \<Rightarrow> string \<Rightarrow> store \<Rightarrow> store" where
  "set_filename ma fn s = s\<lparr>metas := (metas s)(ma := (metas s ma)\<lparr>filename := fn\<rparr>)\<rparr>"

text \<open>
  The resampler returns new model objects. Each one is placed at the next unused
  address, with a metadata node of its own at the same address of the metadata heap.
\<close>

definition new_model :: "mosaic \<Rightarrow> store \<Rightarrow> addr \<times> store" where
  "new_model m s =
     (let a = next_addr s
      in (a, s\<lparr>models := (models s)(a := \<lparr>data = mosaic_data m, dq = mosaic_dq m,
                                          wht = mosaic_wht m, meta = a\<rparr>),
               metas := (metas s)(a := mosaic_meta m),
               next_addr := Suc a\<rparr>))"

fun new_models :: "mosaic list \<Rightarrow> store \<Rightarrow> addr list \<times> store" where
  "new_models [] s = ([], s)"
| "new_models (m # ms) s =
     (case new_model m s of (a, s1) \<Rightarrow>
        (case new_models ms s1 of (as, s2) \<Rightarrow> (a # as, s2)))"

text \<open>
  Lines 52 to 59: every drizzled model gets its output name, the name is logged and
  the model is saved. \<open>model.save\<close> can raise; nothing catches it.
\<close>

fun save_drizzled :: "collaborators \<Rightarrow> addr list \<Rightarrow> store \<Rightarrow> error option \<times> store" where
  "save_drizzled c [] s = (None, s)"
| "save_drizzled c (a # as) s =
     (let ma = meta (models s a);
          fn = make_output_path c (filename (metas s ma)) ''_outlier_s2d.fits'';
          s1 = log_info ''Writing out resampled spectra...'' (set_filename ma fn s)
      in case save c fn of
           Some e \<Rightarrow> (Some e, s1)
         | None \<Rightarrow> save_drizzled c as (emit (Saved_model a fn) s1))"

text \<open>
  Lines 62 to 66: without resampling the drizzled models are the input models, and the
  weight map of each is overwritten with what the weight builder computes from it.
\<close>

fun build_weights :: "collaborators \<Rightarrow> config \<Rightarrow> addr list \<Rightarrow> store \<Rightarrow> store" where
  "build_weights c kw [] s = s"
| "build_weights c kw (a # as) s =
     build_weights c kw as
       (s\<lparr>models := (models s)(a := (models s a)
            \<lparr>wht := build_driz_weight c (view s a) (weight_type kw) (good_bits kw)\<rparr>)\<rparr>)"

text \<open>
  Modelled from the spec: the resampler is not among the sources. With \<open>in_memory\<close> off
  the intermediate products are kept on disk rather than in transient storage only
  (section 6), which is why the routine removes them later (comment at lines 85 and 86);
  the store records which container entries are backed by a file.
\<close>

definition materialise :: "config \<Rightarrow> addr list \<Rightarrow> store \<Rightarrow> store" where
  "materialise kw drizzled_models s =
     s\<lparr>storage := (if in_memory kw then storage s else storage s \<union> set drizzled_models)\<rparr>"

text \<open>Lines 46 to 66.\<close>

definition make_drizzled ::
  "collaborators \<Rightarrow> config \<Rightarrow> addr list \<Rightarrow> store \<Rightarrow> (error + addr list) \<times> store" where
  "make_drizzled c kw input_models s =
     (if resample_data kw then
        (case do_drizzle c kw (map (view s) input_models) of
           Inl e \<Rightarrow> (Inl e, s)
         | Inr ms \<Rightarrow>
            (case new_models ms s of (drizzled_models, s1) \<Rightarrow>
               let s2 = emit Resampled (materialise kw drizzled_models s1)
               in if save_intermediate_results kw then
                    (case save_drizzled c drizzled_models s2 of
                       (Some e, s3) \<Rightarrow> (Inl e, s3)
                     | (None, s3) \<Rightarrow> (Inr drizzled_models, s3))
                  else (Inr drizzled_models, s2)))
      else (Inr input_models, build_weights c kw input_models s))"

text \<open>
  \<open>datamodels.ImageModel(shape)\<close>: a new model of the given shape, filled with zeros,
  with a new metadata node.
\<close>

definition ImageModel :: "nat \<times> nat \<Rightarrow> store \<Rightarrow> model \<times> store" where
  "ImageModel sh s =
     (let a = next_addr s
      in (\<lparr>data = zeros sh (Some 0), dq = zeros sh 0, wht = zeros sh 0, meta = a\<rparr>,
          s\<lparr>metas := (metas s)(a := \<lparr>filename = [], exposure_time = 0\<rparr>),
            next_addr := Suc a\<rparr>))"

text \<open>
  Lines 69 to 74. \<open>drizzled_models[0]\<close> and \<open>input_models[0]\<close> raise \<open>IndexError\<close> on
  an empty container. The median model's \<open>meta\<close> becomes the metadata node of the first
  drizzled model (the same object, not a copy), and the output name of the median is
  then written through it.
\<close>

definition init_median ::
  "collaborators \<Rightarrow> addr list \<Rightarrow> addr list \<Rightarrow> store \<Rightarrow> (error + model) \<times> store" where
  "init_median c input_models drizzled_models s =
     (case drizzled_models of
        [] \<Rightarrow> (Inl IndexError, s)
      | d0 # _ \<Rightarrow>
         (case ImageModel (shape (data (models s d0))) s of (m, s1) \<Rightarrow>
            let median_model = m\<lparr>meta := meta (models s1 d0)\<rparr>
            in (case input_models of
                  [] \<Rightarrow> (Inl IndexError, s1)
                | i0 # _ \<Rightarrow>
                   let fn = make_output_path c
                              (filename (metas s1 (meta (models s1 i0)))) ''median''
                   in (Inr median_model, set_filename (meta median_model) fn s1))))"

text \<open>
  Modelled from the spec: \<open>_remove_file\<close> is imported from \<open>utils\<close>, which is not among
  the sources. The spec has it release the storage of an intermediate artifact
  (deletion from transient or persistent storage).
\<close>

definition remove_file :: "addr \<Rightarrow> store \<Rightarrow> store" where
  "remove_file fn s = emit (Removed_file fn) (s\<lparr>storage := storage s - {fn}\<rparr>)"

text \<open>Lines 88 to 90.\<close>

fun remove_files :: "addr list \<Rightarrow> store \<Rightarrow> store" where
  "remove_files [] s = s"
| "remove_files (fn # fns) s = remove_files fns (emit (Log_removing fn) (remove_file fn s))"

text \<open>Lines 80 to 90.\<close>

definition finish_intermediates ::
  "collaborators \<Rightarrow> config \<Rightarrow> addr list \<Rightarrow> model \<Rightarrow> store \<Rightarrow> error option \<times> store" where
  "finish_intermediates c kw drizzled_models median_model s =
     (if save_intermediate_results kw then
        (let fn = filename (metas s (meta median_model));
             s1 = log_info (''Writing out MEDIAN image to: '' @ fn) s
         in case save c fn of
              Some e \<Rightarrow> (Some e, s1)
            | None \<Rightarrow> (None, emit (Saved_median fn) s1))
      else if \<not> in_memory kw then (None, remove_files drizzled_models s)
      else (None, s))"

text \<open>
  Lines 94 to 101. \<open>detect_outliers\<close> changes the quality arrays of the input models in
  place; the quality array it leaves in the \<open>i\<close>-th exposure is written to that model.
\<close>

fun write_dq :: "(addr \<times> dq_array) list \<Rightarrow> store \<Rightarrow> store" where
  "write_dq [] s = s"
| "write_dq ((a, q) # rest) s =
     write_dq rest (s\<lparr>models := (models s)(a := (models s a)\<lparr>dq := q\<rparr>)\<rparr>)"

definition run_detect_outliers ::
  "collaborators \<Rightarrow> config \<Rightarrow> addr list \<Rightarrow> model \<Rightarrow> store \<Rightarrow> error option \<times> store" where
  "run_detect_outliers c kw input_models median_model s =
     (let d = detect_outliers c (map (view s) input_models)
                (median_model, metas s (meta median_model))
                (snr kw) (scale kw) (backg kw) (resample_data kw);
          s1 = write_dq (zip input_models (new_dq d)) s
      in (raised d, s1\<lparr>trace := trace s1 @ map event_of (detect_log d)\<rparr>))"

text \<open>
  \<open>do_detection\<close>, lines 40 to 103. It returns nothing; the result is the exception
  that left it, if any, and the store as the run leaves it.
\<close>

definition do_detection ::
  "collaborators \<Rightarrow> config \<Rightarrow> addr list \<Rightarrow> store \<Rightarrow> error option \<times> store" where
  "do_detection c kw input_models s =
     (case convert_inputs c kw of
        Some e \<Rightarrow> (Some e, s)
      | None \<Rightarrow>
         (case make_drizzled c kw input_models s of
            (Inl e, s1) \<Rightarrow> (Some e, s1)
          | (Inr drizzled_models, s1) \<Rightarrow>
             (case init_median c input_models drizzled_models s1 of
                (Inl e, s2) \<Rightarrow> (Some e, s2)
              | (Inr median_model, s2) \<Rightarrow>
                 (case create_median c (map (view s2) drizzled_models) (maskpt kw) of
                    Inl e \<Rightarrow> (Some e, s2)
                  | Inr img \<Rightarrow>
                     let median_model = median_model\<lparr>data := img\<rparr>;
                         s3 = emit Median_created s2
                     in (case finish_intermediates c kw drizzled_models median_model s3 of
                           (Some e, s4) \<Rightarrow> (Some e, s4)
                         | (None, s4) \<Rightarrow>
                            run_detect_outliers c kw input_models median_model s4)))))"

section \<open>The callees that are not among the sources\<close>

text \<open>
  \<open>create_median\<close> and \<open>detect_outliers\<close> are imported from \<open>utils\<close>, which is
  not among the sources; only their calls are. The definitions of this section follow
  the specification's sections 4.2 to 4.4 and the last step of 4.1 word by word. What
  the specification leaves to the implementer (the back-projection, the noise model,
  the secondary test, the value of the outlier bit) is a parameter.
\<close>

text \<open>
  Modelled from the spec: the median of 4.2. For an even count it is the average of the
  two central values.
\<close>

definition median :: "real list \<Rightarrow> real" where
  "median xs =
     (let ys = sort xs; n = length ys
      in if odd n then ys ! (n div 2) else (ys ! (n div 2 - 1) + ys ! (n div 2)) / 2)"

text \<open>
  Modelled from the spec: the reference weight of the Median Combiner (4.2), the median
  of the non-zero weights at one position across the stack. There is none when no
  member has a non-zero weight there.
\<close>

definition reference_weight :: "real list \<Rightarrow> real option" where
  "reference_weight ws =
     (case filter (\<lambda>w. w \<noteq> 0) ws of [] \<Rightarrow> None | nz \<Rightarrow> Some (median nz))"

text \<open>
  Modelled from the spec: the members included at one position (4.2) are those whose
  weight is at or above \<open>maskpt\<close> times the reference weight; a member whose weight is
  zero there is excluded from the combination at that pixel (section 3).
\<close>

definition included :: "real \<Rightarrow> (pixel \<times> real) list \<Rightarrow> pixel list" where
  "included mp col =
     (case reference_weight (map snd col) of
        None \<Rightarrow> []
      | Some rw \<Rightarrow> map fst (filter (\<lambda>(d, w). w \<noteq> 0 \<and> mp * rw \<le> w) col))"

text \<open>
  Modelled from the spec: the output pixel of the Median Combiner (4.2) is the median
  of the included members' data values, and non-finite when none is included. A
  non-finite data value among the included ones makes the median non-finite.
\<close>

definition combine_pixel :: "real \<Rightarrow> (pixel \<times> real) list \<Rightarrow> pixel" where
  "combine_pixel mp col =
     (case included mp col of [] \<Rightarrow> None | ds \<Rightarrow> map_option median (those ds))"

text \<open>
  Modelled from the spec: an array is on a grid when it has the grid's number of rows
  and every row has the grid's number of columns (section 3: arrays that are combined
  or compared share one shape).
\<close>

definition on_grid :: "nat \<times> nat \<Rightarrow> 'a list list \<Rightarrow> bool" where
  "on_grid sh a = (length a = fst sh \<and> list_all (\<lambda>row. length row = snd sh) a)"

text \<open>
  Modelled from the spec: the data value and the weight of every stack member at one
  position, in input order (4.2).
\<close>

definition column :: "(image \<times> weight_map) list \<Rightarrow> nat \<Rightarrow> nat \<Rightarrow> (pixel \<times> real) list" where
  "column mosaics r k = map (\<lambda>(d, w). (d ! r ! k, w ! r ! k)) mosaics"

text \<open>
  Modelled from the spec: the Median Combiner (4.2), \<open>combine(mosaics, maskpt)\<close>, on a
  stack of mosaics that are all on the same grid, position by position. An empty stack
  is a \<open>CombineError\<close> (section 7); so is a stack that is not on one grid.
\<close>

definition combine :: "(image \<times> weight_map) list \<Rightarrow> real \<Rightarrow> error + image" where
  "combine mosaics mp =
     (case mosaics of
        [] \<Rightarrow> Inl CombineError
      | (d0, w0) # _ \<Rightarrow>
         if list_all (\<lambda>(d, w). on_grid (shape d0) d \<and> on_grid (shape d0) w) mosaics
         then Inr (map (\<lambda>r. map (\<lambda>k. combine_pixel mp (column mosaics r k))
                               [0 ..< snd (shape d0)])
                       [0 ..< fst (shape d0)])
         else Inl CombineError)"

text \<open>
  Modelled from the spec: what the specification leaves to the implementer or to an
  external collaborator. \<open>project\<close> is the Back-Projector (section 6), which can fail
  on an exposure; \<open>noise_sigma\<close> is the two-term noise model of 4.3, from the scale
  coefficients and the reference signal; \<open>secondary\<close> is the second test of 4.3, from
  \<open>t2\<close>, the scale coefficients, the background, both images and the position;
  \<open>outlier_bit\<close> is the dedicated bit of 4.4.
\<close>

record design =
  project :: "image \<Rightarrow> model \<times> metadata \<Rightarrow> error + image"
  noise_sigma :: "real \<times> real \<Rightarrow> real \<Rightarrow> real"
  secondary :: "real \<Rightarrow> real \<times> real \<Rightarrow> real \<Rightarrow> image \<Rightarrow> image \<Rightarrow> nat \<Rightarrow> nat \<Rightarrow> bool"
  outlier_bit :: nat

text \<open>
  Modelled from the spec: the Outlier Comparator (4.3) at one pixel. A pixel whose
  native reference is non-finite is skipped; otherwise the residual
  \<open>exposure_data - native_reference - background\<close> is tested against \<open>t1\<close> times the
  noise estimate, and the secondary test has to agree.
\<close>

definition compare_pixel ::
  "design \<Rightarrow> image \<Rightarrow> image \<Rightarrow> real \<times> real \<Rightarrow> real \<times> real \<Rightarrow> real \<Rightarrow> nat \<Rightarrow> nat \<Rightarrow> bool" where
  "compare_pixel dsg exposure_data native_reference thresholds sc background r k =
     (case native_reference ! r ! k of
        None \<Rightarrow> False
      | Some ref \<Rightarrow>
         (case exposure_data ! r ! k of
            None \<Rightarrow> False
          | Some d \<Rightarrow>
             let residual = d - ref - background;
                 sigma = noise_sigma dsg sc ref
             in \<bar>residual\<bar> > fst thresholds * sigma
                \<and> secondary dsg (snd thresholds) sc background
                     exposure_data native_reference r k))"

text \<open>
  Modelled from the spec: \<open>compare\<close> (4.3) returns a boolean mask of the shape of
  \<open>exposure_data\<close>; the same formula applies whether or not resampling was used.
\<close>

definition compare ::
  "design \<Rightarrow> image \<Rightarrow> image \<Rightarrow> real \<times> real \<Rightarrow> real \<times> real \<Rightarrow> real \<Rightarrow> bool \<Rightarrow> bool list list" where
  "compare dsg exposure_data native_reference thresholds sc background resample_was_used =
     map (\<lambda>r. map (\<lambda>k. compare_pixel dsg exposure_data native_reference
                          thresholds sc background r k)
                   [0 ..< length (exposure_data ! r)])
         [0 ..< length exposure_data]"

text \<open>
  Modelled from the spec: the Mask Writer (4.4) ORs the outlier bit into the quality
  flags where the mask is true and touches nothing else.
\<close>

definition mask_writer :: "nat \<Rightarrow> bool list list \<Rightarrow> dq_array \<Rightarrow> dq_array" where
  "mask_writer flag outlier_mask q =
     map2 (\<lambda>mrow qrow. map2 (\<lambda>m f. if m then f OR flag else f) mrow qrow) outlier_mask q"

text \<open>
  Modelled from the spec: the native reference of an exposure in step 7 of the Detection
  Controller (4.1) is the reference itself if resampling was disabled and the grid
  already matches, and the back-projection otherwise.
\<close>

definition native_reference_of :: "design \<Rightarrow> image \<Rightarrow> bool \<Rightarrow> model \<times> metadata \<Rightarrow> error + image" where
  "native_reference_of dsg reference resample v =
     (if \<not> resample \<and> shape reference = shape (data (fst v)) then Inr reference
      else project dsg reference v)"

text \<open>
  Modelled from the spec: step 7 of the Detection Controller (4.1) for one exposure:
  obtain the native reference, run the Outlier Comparator, apply the Mask Writer. A
  failure projecting or comparing (the native reference is not on the exposure's grid)
  is reported and leaves the exposure as it was (section 7, \<open>PerExposureError\<close>).
\<close>

definition reprocess_exposure ::
  "design \<Rightarrow> image \<Rightarrow> real \<times> real \<Rightarrow> real \<times> real \<Rightarrow> real \<Rightarrow> bool \<Rightarrow> nat
     \<Rightarrow> model \<times> metadata \<Rightarrow> dq_array \<times> detect_event list" where
  "reprocess_exposure dsg reference thresholds sc background resample i v =
     (case native_reference_of dsg reference resample v of
        Inl e \<Rightarrow> (dq (fst v), [Report_error i e])
      | Inr nr \<Rightarrow>
         if shape nr = shape (data (fst v))
         then (mask_writer (outlier_bit dsg)
                 (compare dsg (data (fst v)) nr thresholds sc background resample)
                 (dq (fst v)),
               [Compare_exposure i])
         else (dq (fst v), [Report_error i PerExposureError]))"

text \<open>
  Modelled from the spec: step 7 of the Detection Controller (4.1) over all exposures,
  in input order. A failure on one exposure does not stop the loop.
\<close>

fun reprocess ::
  "design \<Rightarrow> image \<Rightarrow> real \<times> real \<Rightarrow> real \<times> real \<Rightarrow> real \<Rightarrow> bool \<Rightarrow> nat
     \<Rightarrow> (model \<times> metadata) list \<Rightarrow> dq_array list \<times> detect_event list" where
  "reprocess dsg reference thresholds sc background resample i [] = ([], [])"
| "reprocess dsg reference thresholds sc background resample i (v # vs) =
     (case reprocess_exposure dsg reference thresholds sc background resample i v of
        (q, evs) \<Rightarrow>
          (case reprocess dsg reference thresholds sc background resample (Suc i) vs of
             (qs, evs') \<Rightarrow> (q # qs, evs @ evs')))"

text \<open>
  Modelled from the spec: \<open>detect_outliers\<close>, called at lines 94 to 101 with the input
  models, the median model, \<open>snr\<close>, \<open>scale\<close>, \<open>backg\<close> and \<open>resample_data\<close>, is step 7
  of the Detection Controller. Failures are contained per exposure, so it raises
  nothing.
\<close>

definition detect_outliers_spec ::
  "design \<Rightarrow> (model \<times> metadata) list \<Rightarrow> model \<times> metadata \<Rightarrow> real \<times> real
     \<Rightarrow> real \<times> real \<Rightarrow> real \<Rightarrow> bool \<Rightarrow> detection" where
  "detect_outliers_spec dsg input_models median_model thresholds sc background resample =
     (case reprocess dsg (data (fst median_model)) thresholds sc background resample 0
             input_models of
        (qs, evs) \<Rightarrow> \<lparr>new_dq = qs, detect_log = evs, raised = None\<rparr>)"

text \<open>
  Modelled from the spec: \<open>create_median\<close>, called at line 78 with the drizzled models
  and \<open>maskpt\<close>, is the Median Combiner on their data and weight maps.
\<close>

definition create_median_spec :: "(model \<times> metadata) list \<Rightarrow> real \<Rightarrow> error + image" where
  "create_median_spec resampled_models mp =
     combine (map (\<lambda>v. (data (fst v), wht (fst v))) resampled_models) mp"

section \<open>A concrete run\<close>

text \<open>
  Three one-pixel exposures reading 10, 10 and 100, with clean quality flags, at the
  addresses 0, 1 and 2; collaborators that resample by copying, name outputs by
  appending the suffix, never fail to save, weigh a pixel 1 if its quality flags are
  clean and 0 otherwise, and combine and detect as the specification says, with the
  identity as back-projection, a noise estimate of \<open>2 * s1 + s2\<close>, a secondary test
  that always agrees, and 16 as the outlier bit.
\<close>

definition example_store :: store where
  "example_store =
     \<lparr>models = (\<lambda>a. \<lparr>data = [[Some (if a = 2 then 100 else 10)]], dq = [[0]],
                       wht = [[0]], meta = a\<rparr>),
      metas = (\<lambda>a. \<lparr>filename = (if a = 0 then ''a.fits'' else ''b.fits''),
                      exposure_time = 1\<rparr>),
      next_addr = 3,
      storage = {},
      trace = []\<rparr>"

definition example_inputs :: "addr list" where
  "example_inputs = [0, 1, 2]"

definition example_design :: design where
  "example_design =
     \<lparr>project = (\<lambda>reference v. Inr reference),
      noise_sigma = (\<lambda>sc ref. 2 * fst sc + snd sc),
      secondary = (\<lambda>t2 sc background exposure_data native_reference r k. True),
      outlier_bit = 16\<rparr>"

definition example_collaborators :: collaborators where
  "example_collaborators =
     \<lparr>convert_inputs = (\<lambda>kw. None),
      do_drizzle = (\<lambda>kw vs. Inr (map (\<lambda>v. \<lparr>mosaic_data = data (fst v),
                                               mosaic_dq = dq (fst v),
                                               mosaic_wht = [[1]],
                                               mosaic_meta = snd v\<rparr>) vs)),
      make_output_path = (\<lambda>basepath suffix. basepath @ suffix),
      save = (\<lambda>fn. None),
      build_driz_weight = (\<lambda>v wt gb. map (map (\<lambda>f. if f = 0 then 1 else 0)) (dq (fst v))),
      create_median = create_median_spec,
      detect_outliers = detect_outliers_spec example_design\<rparr>"

definition example_config :: config where
  "example_config =
     \<lparr>resample_data = False, save_intermediate_results = False, in_memory = True,
      weight_type = ''ivm'', good_bits = ''~DO_NOT_USE'', maskpt = 3 / 10,
      snr = (5, 4), scale = (1, 0), backg = 0\<rparr>"

text \<open>
  Variations of the run: resampling with every intermediate product saved; resampling
  with the mosaics left in files and nothing saved; a combiner that raises; a sink that
  cannot be written to; a back-projection that fails on the exposure named \<open>a.fits\<close>.
\<close>

definition example_config_saving :: config where
  "example_config_saving =
     example_config\<lparr>resample_data := True, save_intermediate_results := True\<rparr>"

definition example_config_on_disk :: config where
  "example_config_on_disk = example_config\<lparr>resample_data := True, in_memory := False\<rparr>"

definition example_collaborators_no_median :: collaborators where
  "example_collaborators_no_median =
     example_collaborators\<lparr>create_median := (\<lambda>resampled_models mp. Inl CombineError)\<rparr>"

definition example_collaborators_no_save :: collaborators where
  "example_collaborators_no_save =
     example_collaborators\<lparr>save := (\<lambda>fn. Some PersistenceError)\<rparr>"

definition example_design_failing :: design where
  "example_design_failing =
     example_design\<lparr>project := (\<lambda>reference v.
        if filename (snd v) = ''a.fits'' then Inl PerExposureError else Inr reference)\<rparr>"

text \<open>
  The three exposures as \<open>detect_outliers\<close> receives them, a median model reading 10,
  and a stack of two one-row mosaics whose second pixel has no weight in either.
\<close>

definition example_views :: "(model \<times> metadata) list" where
  "example_views = map (view example_store) example_inputs"

definition example_median :: "model \<times> metadata" where
  "example_median =
     (\<lparr>data = [[Some 10]], dq = [[0]], wht = [[0]], meta = 0\<rparr>,
      \<lparr>filename = ''a.fitsmedian'', exposure_time = 1\<rparr>)"

definition example_uncovered_stack :: "(image \<times> weight_map) list" where
  "example_uncovered_stack =
     [([[Some 10, Some 10]], [[1, 0]]), ([[Some 10, Some 100]], [[1, 0]])]"

section \<open>Events of a run\<close>

definition run_events :: "collaborators \<Rightarrow> config \<Rightarrow> addr list \<Rightarrow> store \<Rightarrow> event list" where
  "run_events c kw input_models s =
     drop (length (trace s)) (trace (snd (do_detection c kw input_models s)))"

fun drizzle_event :: "event \<Rightarrow> bool" where
  "drizzle_event Resampled = True"
| "drizzle_event (Saved_model a fn) = True"
| "drizzle_event (Log_info msg) = True"
| "drizzle_event e = False"

fun finish_event :: "event \<Rightarrow> bool" where
  "finish_event (Saved_median fn) = True"
| "finish_event (Removed_file a) = True"
| "finish_event (Log_removing a) = True"
| "finish_event (Log_info msg) = True"
| "finish_event e = False"

fun detect_phase_event :: "event \<Rightarrow> bool" where
  "detect_phase_event (Compared i) = True"
| "detect_phase_event (Reported i e) = True"
| "detect_phase_event e = False"

definition extends :: "(event \<Rightarrow> bool) \<Rightarrow> store \<Rightarrow> store \<Rightarrow> bool" where
  "extends P s s' = (\<exists>evs. trace s' = trace s @ evs \<and> list_all P evs)"


text \<open>
  Modelled from the spec: whether step 7 fails on an exposure. Its native reference
  cannot be obtained, or is not on the grid of the exposure.
\<close>

definition exposure_fails :: "design \<Rightarrow> image \<Rightarrow> bool \<Rightarrow> model \<times> metadata \<Rightarrow> bool" where
  "exposure_fails dsg reference resample v =
     (case native_reference_of dsg reference resample v of
        Inl e \<Rightarrow> True
      | Inr nr \<Rightarrow> shape nr \<noteq> shape (data (fst v)))"

section \<open>Frame and trace of each stage\<close>

text \<open>
  Each stage of the run only appends to the trace, and writes to few places of the
  store. The lemmas of this section say which events a stage can append and what it
  leaves alone; \<open>do_detection_cases\<close> then splits a run by the stage it ends in.
\<close>

lemmas run_defs = do_detection_def make_drizzled_def init_median_def finish_intermediates_def
  run_detect_outliers_def ImageModel_def new_model_def materialise_def remove_file_def
  emit_def log_info_def
  set_filename_def view_def shape_def zeros_def run_events_def Let_def
lemmas spec_defs = create_median_spec_def combine_def combine_pixel_def included_def
  reference_weight_def median_def column_def on_grid_def detect_outliers_spec_def
  reprocess_exposure_def native_reference_of_def compare_def compare_pixel_def mask_writer_def
lemmas example_defs = example_inputs_def example_store_def example_collaborators_def
  example_config_def example_design_def example_config_saving_def example_config_on_disk_def
  example_collaborators_no_median_def example_collaborators_no_save_def
  example_design_failing_def

lemma extends_refl: "extends P s s"
  by (simp add: extends_def)

lemma extends_same: "trace s' = trace s \<Longrightarrow> extends P s s'"
  by (simp add: extends_def)

lemma extends_trans: "extends P s s1 \<Longrightarrow> extends P s1 s2 \<Longrightarrow> extends P s s2"
  by (auto simp: extends_def)

lemma extends_mono: "extends P s s' \<Longrightarrow> (\<And>e. P e \<Longrightarrow> Q e) \<Longrightarrow> extends Q s s'"
  by (auto simp: extends_def list_all_iff)

lemma extends_emit: "P e \<Longrightarrow> extends P s (emit e s)"
  by (simp add: extends_def emit_def)

lemma extends_emit_after: "extends P s s1 \<Longrightarrow> P e \<Longrightarrow> extends P s (emit e s1)"
  by (auto simp: extends_def emit_def)

lemma extends_log_info: "P (Log_info msg) \<Longrightarrow> extends P s (log_info msg s)"
  by (simp add: extends_def log_info_def)

lemma extends_eventsD:
  "extends P s s' \<Longrightarrow> list_all P (drop (length (trace s)) (trace s'))"
  by (auto simp: extends_def)

subsection \<open>Allocation of the drizzled models\<close>

lemma new_models_frame:
  "new_models ms s = (as, s') \<Longrightarrow>
     trace s' = trace s \<and> storage s' = storage s
     \<and> next_addr s' = next_addr s + length ms
     \<and> length as = length ms
     \<and> (\<forall>a \<in> set as. next_addr s \<le> a \<and> a < next_addr s')
     \<and> (\<forall>b < next_addr s. models s' b = models s b \<and> metas s' b = metas s b)"
proof (induction ms arbitrary: s as s')
  case Nil
  then show ?case by simp
next
  case (Cons m ms)
  obtain a s1 where a: "new_model m s = (a, s1)" by (cases "new_model m s")
  obtain bs s2 where b: "new_models ms s1 = (bs, s2)" by (cases "new_models ms s1")
  from Cons.prems a b have eq: "as = a # bs" "s' = s2" by simp_all
  from a have s1: "a = next_addr s" "next_addr s1 = Suc (next_addr s)"
    "trace s1 = trace s" "storage s1 = storage s"
    "\<forall>b < next_addr s. models s1 b = models s b \<and> metas s1 b = metas s b"
    by (auto simp: new_model_def Let_def)
  from Cons.IH [OF b] s1 eq show ?case
    by auto
qed

lemma new_models_meta:
  "new_models ms s = (as, s') \<Longrightarrow> a \<in> set as \<Longrightarrow> meta (models s' a) = a"
proof (induction ms arbitrary: s as s')
  case Nil
  then show ?case by simp
next
  case (Cons m ms)
  obtain a0 s1 where a: "new_model m s = (a0, s1)" by (cases "new_model m s")
  obtain bs s2 where b: "new_models ms s1 = (bs, s2)" by (cases "new_models ms s1")
  from Cons.prems a b have eq: "as = a0 # bs" "s' = s2" by simp_all
  from a have s1: "a0 = next_addr s" "next_addr s1 = Suc (next_addr s)" "meta (models s1 a0) = a0"
    by (auto simp: new_model_def Let_def)
  show ?case
  proof (cases "a = a0")
    case True
    with new_models_frame [OF b] s1 eq show ?thesis by simp
  next
    case False
    with Cons.prems eq have "a \<in> set bs" by simp
    from Cons.IH [OF b this] eq show ?thesis by simp
  qed
qed

subsection \<open>Saving the drizzled models\<close>

lemma save_drizzled_frame:
  "save_drizzled c as s = (r, s') \<Longrightarrow>
     models s' = models s \<and> next_addr s' = next_addr s \<and> storage s' = storage s
     \<and> (\<forall>b. (\<forall>a \<in> set as. meta (models s a) \<noteq> b) \<longrightarrow> metas s' b = metas s b)"
proof (induction as arbitrary: s r s')
  case Nil
  then show ?case by simp
next
  case (Cons a as)
  let ?ma = "meta (models s a)"
  let ?fn = "make_output_path c (filename (metas s ?ma)) ''_outlier_s2d.fits''"
  let ?s1 = "log_info ''Writing out resampled spectra...'' (set_filename ?ma ?fn s)"
  have s1: "models ?s1 = models s" "next_addr ?s1 = next_addr s" "storage ?s1 = storage s"
    "\<forall>b. b \<noteq> ?ma \<longrightarrow> metas ?s1 b = metas s b"
    by (simp_all add: log_info_def set_filename_def)
  show ?case
  proof (cases "save c ?fn")
    case (Some e)
    with Cons.prems have "s' = ?s1" by (simp add: Let_def)
    with s1 show ?thesis by simp
  next
    case None
    with Cons.prems have "save_drizzled c as (emit (Saved_model a ?fn) ?s1) = (r, s')"
      by (simp add: Let_def)
    from Cons.IH [OF this] s1 show ?thesis
      by (simp add: emit_def)
  qed
qed

lemma save_drizzled_events:
  "save_drizzled c as s = (r, s') \<Longrightarrow>
     extends (\<lambda>e. drizzle_event e \<and> (\<forall>a fn. e = Saved_model a fn \<longrightarrow> a \<in> set as)) s s'"
proof (induction as arbitrary: s r s')
  case Nil
  then show ?case by (simp add: extends_refl)
next
  case (Cons a as)
  let ?P = "\<lambda>e. drizzle_event e \<and> (\<forall>a' fn. e = Saved_model a' fn \<longrightarrow> a' \<in> set (a # as))"
  let ?ma = "meta (models s a)"
  let ?fn = "make_output_path c (filename (metas s ?ma)) ''_outlier_s2d.fits''"
  let ?s1 = "log_info ''Writing out resampled spectra...'' (set_filename ?ma ?fn s)"
  have s1: "extends ?P s ?s1"
    by (simp add: extends_def log_info_def set_filename_def)
  show ?case
  proof (cases "save c ?fn")
    case (Some e)
    with Cons.prems have "s' = ?s1" by (simp add: Let_def)
    with s1 show ?thesis by simp
  next
    case None
    with Cons.prems have run: "save_drizzled c as (emit (Saved_model a ?fn) ?s1) = (r, s')"
      by (simp add: Let_def)
    have "extends ?P s (emit (Saved_model a ?fn) ?s1)"
      by (rule extends_emit_after [OF s1]) simp
    moreover have "extends ?P (emit (Saved_model a ?fn) ?s1) s'"
      by (rule extends_mono [OF Cons.IH [OF run]]) auto
    ultimately show ?thesis by (rule extends_trans)
  qed
qed

lemma save_drizzled_all_saved:
  "save_drizzled c as s = (None, s') \<Longrightarrow> a \<in> set as \<Longrightarrow>
     \<exists>fn. Saved_model a fn \<in> set (drop (length (trace s)) (trace s'))"
proof (induction as arbitrary: s s')
  case Nil
  then show ?case by simp
next
  case (Cons a0 as)
  let ?ma = "meta (models s a0)"
  let ?fn = "make_output_path c (filename (metas s ?ma)) ''_outlier_s2d.fits''"
  let ?s1 = "log_info ''Writing out resampled spectra...'' (set_filename ?ma ?fn s)"
  let ?s2 = "emit (Saved_model a0 ?fn) ?s1"
  from Cons.prems have none: "save c ?fn = None"
    by (auto simp: Let_def split: option.splits)
  with Cons.prems have run: "save_drizzled c as ?s2 = (None, s')"
    by (simp add: Let_def)
  have t2: "trace ?s2 = trace s @ [Log_info ''Writing out resampled spectra...'', Saved_model a0 ?fn]"
    by (simp add: emit_def log_info_def set_filename_def)
  from save_drizzled_events [OF run] obtain evs where evs: "trace s' = trace ?s2 @ evs"
    by (auto simp: extends_def)
  show ?case
  proof (cases "a = a0")
    case True
    with evs t2 show ?thesis by auto
  next
    case False
    with Cons.prems have "a \<in> set as" by simp
    from Cons.IH [OF run this] obtain fn where "Saved_model a fn \<in> set (drop (length (trace ?s2)) (trace s'))"
      by blast
    with evs t2 show ?thesis by auto
  qed
qed

subsection \<open>The weight maps without resampling\<close>

lemma build_weights_frame:
  "trace (build_weights c kw as s) = trace s
   \<and> metas (build_weights c kw as s) = metas s
   \<and> next_addr (build_weights c kw as s) = next_addr s
   \<and> storage (build_weights c kw as s) = storage s
   \<and> data (models (build_weights c kw as s) b) = data (models s b)
   \<and> dq (models (build_weights c kw as s) b) = dq (models s b)
   \<and> meta (models (build_weights c kw as s) b) = meta (models s b)
   \<and> (b \<notin> set as \<longrightarrow> models (build_weights c kw as s) b = models s b)"
  by (induction as arbitrary: s) auto


subsection \<open>Removing the files of the drizzled models\<close>

lemma remove_files_frame:
  "models (remove_files as s) = models s \<and> metas (remove_files as s) = metas s
   \<and> next_addr (remove_files as s) = next_addr s
   \<and> storage (remove_files as s) = storage s - set as"
  by (induction as arbitrary: s) (auto simp: remove_file_def emit_def)

lemma remove_files_events: "extends finish_event s (remove_files as s)"
proof (induction as arbitrary: s)
  case Nil
  show ?case by (simp add: extends_refl)
next
  case (Cons a as)
  have "extends finish_event s (emit (Log_removing a) (remove_file a s))"
    by (simp add: extends_def emit_def remove_file_def)
  then show ?case
    using Cons.IH by (auto intro: extends_trans)
qed

lemma remove_files_removed:
  "a \<in> set as \<Longrightarrow> Removed_file a \<in> set (drop (length (trace s)) (trace (remove_files as s)))"
proof (induction as arbitrary: s)
  case Nil
  then show ?case by simp
next
  case (Cons a0 as)
  let ?s1 = "emit (Log_removing a0) (remove_file a0 s)"
  have t1: "trace ?s1 = trace s @ [Removed_file a0, Log_removing a0]"
    by (simp add: emit_def remove_file_def)
  from remove_files_events [of ?s1 as] obtain evs where evs: "trace (remove_files as ?s1) = trace ?s1 @ evs"
    by (auto simp: extends_def)
  show ?case
  proof (cases "a = a0")
    case True
    with evs t1 show ?thesis by simp
  next
    case False
    with Cons.prems have "a \<in> set as" by simp
    from Cons.IH [OF this, of ?s1] evs t1 show ?thesis by simp
  qed
qed

subsection \<open>The quality arrays after detection\<close>

lemma write_dq_frame:
  "trace (write_dq qs s) = trace s \<and> metas (write_dq qs s) = metas s
   \<and> next_addr (write_dq qs s) = next_addr s \<and> storage (write_dq qs s) = storage s
   \<and> data (models (write_dq qs s) b) = data (models s b)
   \<and> wht (models (write_dq qs s) b) = wht (models s b)
   \<and> meta (models (write_dq qs s) b) = meta (models s b)
   \<and> (b \<notin> fst ` set qs \<longrightarrow> models (write_dq qs s) b = models s b)"
  by (induction qs s rule: write_dq.induct) auto

lemma write_dq_nth:
  "distinct as \<Longrightarrow> length qs = length as \<Longrightarrow> i < length as \<Longrightarrow>
     dq (models (write_dq (zip as qs) s) (as ! i)) = qs ! i"
proof (induction as arbitrary: qs i s)
  case Nil
  then show ?case by simp
next
  case (Cons a as)
  then obtain q qs' where qs: "qs = q # qs'" by (cases qs) auto
  let ?s1 = "s\<lparr>models := (models s)(a := (models s a)\<lparr>dq := q\<rparr>)\<rparr>"
  show ?case
  proof (cases i)
    case 0
    from Cons.prems have "a \<notin> fst ` set (zip as qs')"
      by (auto dest: set_zip_leftD)
    with write_dq_frame [of "zip as qs'" ?s1 a] 0 qs show ?thesis by simp
  next
    case (Suc j)
    with Cons.prems qs have "distinct as" "length qs' = length as" "j < length as" by simp_all
    from Cons.IH [OF this, of ?s1] Suc qs show ?thesis by simp
  qed
qed

subsection \<open>The stages of the run\<close>


lemma make_drizzled_events:
  assumes "make_drizzled c kw ins s = (r, s1)"
  shows "extends (\<lambda>e. drizzle_event e \<and>
            (\<forall>a fn. e = Saved_model a fn \<longrightarrow>
               save_intermediate_results kw \<and> resample_data kw
               \<and> (\<forall>ds. r = Inr ds \<longrightarrow> a \<in> set ds))) s s1"
    (is "extends ?P s s1")
proof (cases "resample_data kw")
  case False
  with assms have "s1 = build_weights c kw ins s" by (simp add: make_drizzled_def)
  then show ?thesis by (simp add: extends_same build_weights_frame)
next
  case True
  show ?thesis
  proof (cases "do_drizzle c kw (map (view s) ins)")
    case (Inl e)
    with True assms have "s1 = s" by (simp add: make_drizzled_def)
    then show ?thesis by (simp add: extends_refl)
  next
    case (Inr ms)
    obtain ds t1 where nm: "new_models ms s = (ds, t1)" by (cases "new_models ms s")
    let ?t2 = "emit Resampled (materialise kw ds t1)"
    have t2: "extends ?P s ?t2"
      using new_models_frame [OF nm] by (simp add: extends_def emit_def materialise_def)
    show ?thesis
    proof (cases "save_intermediate_results kw")
      case False
      with True Inr nm assms have "s1 = ?t2" by (simp add: make_drizzled_def Let_def)
      with t2 show ?thesis by simp
    next
      case save: True
      obtain r3 t3 where sd: "save_drizzled c ds ?t2 = (r3, t3)"
        by (cases "save_drizzled c ds ?t2")
      with True Inr nm save assms have s1: "s1 = t3" and r: "\<forall>ds'. r = Inr ds' \<longrightarrow> ds' = ds"
        by (auto simp: make_drizzled_def Let_def split: option.splits)
      have "extends ?P ?t2 t3"
        by (rule extends_mono [OF save_drizzled_events [OF sd]]) (use True save r in auto)
      with t2 s1 show ?thesis by (auto intro: extends_trans)
    qed
  qed
qed

lemma make_drizzled_saved:
  assumes "make_drizzled c kw ins s = (Inr ds, s1)"
    and "save_intermediate_results kw" and "resample_data kw" and "a \<in> set ds"
  shows "\<exists>fn. Saved_model a fn \<in> set (drop (length (trace s)) (trace s1))"
proof -
  from assms obtain ms where ms: "do_drizzle c kw (map (view s) ins) = Inr ms"
    by (auto simp: make_drizzled_def split: sum.splits)
  obtain ds' t1 where nm: "new_models ms s = (ds', t1)" by (cases "new_models ms s")
  let ?t2 = "emit Resampled (materialise kw ds' t1)"
  from assms ms nm have sd: "save_drizzled c ds' ?t2 = (None, s1)" and ds: "ds' = ds"
    by (auto simp: make_drizzled_def Let_def split: option.splits prod.splits)
  have t2: "trace ?t2 = trace s @ [Resampled]"
    using new_models_frame [OF nm] by (simp add: emit_def materialise_def)
  from save_drizzled_events [OF sd] obtain evs where evs: "trace s1 = trace ?t2 @ evs"
    by (auto simp: extends_def)
  from save_drizzled_all_saved [OF sd] assms(4) ds
  obtain fn where "Saved_model a fn \<in> set (drop (length (trace ?t2)) (trace s1))" by blast
  with evs t2 show ?thesis by auto
qed

lemma make_drizzled_fresh:
  assumes "make_drizzled c kw ins s = (Inr ds, s1)" and "resample_data kw" and "a \<in> set ds"
  shows "next_addr s \<le> a \<and> a < next_addr s1 \<and> meta (models s1 a) = a"
proof -
  from assms obtain ms where ms: "do_drizzle c kw (map (view s) ins) = Inr ms"
    by (auto simp: make_drizzled_def split: sum.splits)
  obtain ds' t1 where nm: "new_models ms s = (ds', t1)" by (cases "new_models ms s")
  let ?t2 = "emit Resampled (materialise kw ds' t1)"
  have t2: "models ?t2 = models t1" "next_addr ?t2 = next_addr t1"
    by (simp_all add: emit_def materialise_def)
  from assms ms nm have "ds' = ds \<and> models s1 = models t1 \<and> next_addr s1 = next_addr t1"
    using t2 by (auto simp: make_drizzled_def Let_def split: option.splits prod.splits if_splits
        dest!: save_drizzled_frame)
  with new_models_frame [OF nm] new_models_meta [OF nm] assms(3) show ?thesis by auto
qed

lemma make_drizzled_frame:
  assumes "make_drizzled c kw ins s = (r, s1)" and "b < next_addr s"
  shows "next_addr s \<le> next_addr s1
         \<and> data (models s1 b) = data (models s b)
         \<and> dq (models s1 b) = dq (models s b)
         \<and> meta (models s1 b) = meta (models s b)
         \<and> metas s1 b = metas s b
         \<and> (resample_data kw \<longrightarrow> models s1 b = models s b)"
proof (cases "resample_data kw")
  case False
  with assms have "s1 = build_weights c kw ins s" by (simp add: make_drizzled_def)
  with False show ?thesis by (simp add: build_weights_frame)
next
  case True
  show ?thesis
  proof (cases "do_drizzle c kw (map (view s) ins)")
    case (Inl e)
    with True assms have "s1 = s" by (simp add: make_drizzled_def)
    then show ?thesis by simp
  next
    case (Inr ms)
    obtain ds t1 where nm: "new_models ms s = (ds, t1)" by (cases "new_models ms s")
    let ?t2 = "emit Resampled (materialise kw ds t1)"
    have t2: "models ?t2 = models t1" "next_addr ?t2 = next_addr t1" "metas ?t2 = metas t1"
      by (simp_all add: emit_def materialise_def)
    have fresh: "\<forall>a \<in> set ds. meta (models ?t2 a) \<noteq> b"
      using new_models_frame [OF nm] new_models_meta [OF nm] assms(2) t2 by auto
    show ?thesis
    proof (cases "save_intermediate_results kw")
      case False
      with True Inr nm assms have "s1 = ?t2" by (simp add: make_drizzled_def Let_def)
      with t2 new_models_frame [OF nm] assms(2) show ?thesis by simp
    next
      case save: True
      obtain r3 t3 where sd: "save_drizzled c ds ?t2 = (r3, t3)"
        by (cases "save_drizzled c ds ?t2")
      with True Inr nm save assms have s1: "s1 = t3"
        by (auto simp: make_drizzled_def Let_def split: option.splits)
      from save_drizzled_frame [OF sd] fresh
      have "models t3 = models ?t2" "next_addr t3 = next_addr ?t2" "metas t3 b = metas ?t2 b"
        by simp_all
      with s1 t2 new_models_frame [OF nm] assms(2) show ?thesis by simp
    qed
  qed
qed

lemma shape_zeros: "shape (zeros (shape img) z) = shape img"
  by (cases img) (simp_all add: shape_def zeros_def)

lemma init_median_frame:
  "init_median c ins ds s = (r, s') \<Longrightarrow>
     trace s' = trace s \<and> models s' = models s \<and> storage s' = storage s
     \<and> next_addr s \<le> next_addr s'
     \<and> (\<forall>b. b \<noteq> next_addr s \<longrightarrow> (\<forall>d0 dr. ds = d0 # dr \<longrightarrow> b \<noteq> meta (models s d0))
            \<longrightarrow> metas s' b = metas s b)"
  by (auto simp: init_median_def ImageModel_def set_filename_def Let_def
      split: list.splits prod.splits)

lemma init_median_empty:
  "ds = [] \<or> ins = [] \<Longrightarrow> fst (init_median c ins ds s) = Inl IndexError"
  by (auto simp: init_median_def ImageModel_def Let_def split: list.splits prod.splits)

lemma init_median_ok:
  assumes "init_median c ins ds s = (Inr mm, s')"
  shows "\<exists>d0 dr i0 ir. ds = d0 # dr \<and> ins = i0 # ir
           \<and> meta mm = meta (models s d0)
           \<and> shape (data mm) = shape (data (models s d0))
           \<and> filename (metas s' (meta mm)) =
               make_output_path c
                 (filename (((metas s)(next_addr s := \<lparr>filename = [], exposure_time = 0\<rparr>))
                     (meta (models s i0)))) ''median''"
  using assms
  by (auto simp: init_median_def ImageModel_def set_filename_def Let_def shape_zeros
      split: list.splits prod.splits)

lemma finish_intermediates_frame:
  "finish_intermediates c kw ds mm s = (r, s') \<Longrightarrow>
     models s' = models s \<and> metas s' = metas s \<and> next_addr s' = next_addr s
     \<and> extends finish_event s s'"
  using remove_files_events [of s ds]
  by (auto simp: finish_intermediates_def Let_def remove_files_frame
      extends_def log_info_def emit_def split: if_splits option.splits)

lemma finish_intermediates_release:
  assumes "\<not> save_intermediate_results kw" and "\<not> in_memory kw"
  shows "finish_intermediates c kw ds mm s = (None, remove_files ds s)"
  using assms by (simp add: finish_intermediates_def)

lemma finish_intermediates_error:
  "finish_intermediates c kw ds mm s = (Some e, s') \<Longrightarrow> save_intermediate_results kw"
  by (auto simp: finish_intermediates_def Let_def split: if_splits option.splits)


lemma run_detect_outliers_frame:
  "run_detect_outliers c kw ins mm s = (r, s') \<Longrightarrow>
     metas s' = metas s \<and> next_addr s' = next_addr s \<and> storage s' = storage s
     \<and> data (models s' b) = data (models s b)
     \<and> wht (models s' b) = wht (models s b)
     \<and> meta (models s' b) = meta (models s b)
     \<and> (b \<notin> set ins \<longrightarrow> models s' b = models s b)
     \<and> extends detect_phase_event s s'"
proof -
  assume run: "run_detect_outliers c kw ins mm s = (r, s')"
  let ?d = "detect_outliers c (map (view s) ins) (mm, metas s (meta mm))
                (snr kw) (scale kw) (backg kw) (resample_data kw)"
  have "list_all detect_phase_event (map event_of (detect_log ?d))"
  proof -
    have "detect_phase_event (event_of x)" for x by (cases x) simp_all
    then show ?thesis by (simp add: list_all_iff)
  qed
  moreover have "b \<notin> set ins \<Longrightarrow> b \<notin> fst ` set (zip ins (new_dq ?d))"
    by (auto dest: set_zip_leftD)
  ultimately show ?thesis
    using run write_dq_frame [of "zip ins (new_dq ?d)" s b]
    by (auto simp: run_detect_outliers_def Let_def extends_def)
qed

lemma do_detection_cases:
  obtains
    (convert) e where "convert_inputs c kw = Some e" "do_detection c kw ins s = (Some e, s)"
  | (drizzle) e s1 where "convert_inputs c kw = None"
      "make_drizzled c kw ins s = (Inl e, s1)" "do_detection c kw ins s = (Some e, s1)"
  | (init) ds s1 e s2 where "convert_inputs c kw = None"
      "make_drizzled c kw ins s = (Inr ds, s1)" "init_median c ins ds s1 = (Inl e, s2)"
      "do_detection c kw ins s = (Some e, s2)"
  | (median) ds s1 mm s2 e where "convert_inputs c kw = None"
      "make_drizzled c kw ins s = (Inr ds, s1)" "init_median c ins ds s1 = (Inr mm, s2)"
      "create_median c (map (view s2) ds) (maskpt kw) = Inl e"
      "do_detection c kw ins s = (Some e, s2)"
  | (finish) ds s1 mm s2 img e s4 where "convert_inputs c kw = None"
      "make_drizzled c kw ins s = (Inr ds, s1)" "init_median c ins ds s1 = (Inr mm, s2)"
      "create_median c (map (view s2) ds) (maskpt kw) = Inr img"
      "finish_intermediates c kw ds (mm\<lparr>data := img\<rparr>) (emit Median_created s2) = (Some e, s4)"
      "do_detection c kw ins s = (Some e, s4)"
  | (detect) ds s1 mm s2 img s4 where "convert_inputs c kw = None"
      "make_drizzled c kw ins s = (Inr ds, s1)" "init_median c ins ds s1 = (Inr mm, s2)"
      "create_median c (map (view s2) ds) (maskpt kw) = Inr img"
      "finish_intermediates c kw ds (mm\<lparr>data := img\<rparr>) (emit Median_created s2) = (None, s4)"
      "do_detection c kw ins s = run_detect_outliers c kw ins (mm\<lparr>data := img\<rparr>) s4"
proof (cases "convert_inputs c kw")
  case (Some e)
  then show ?thesis by (auto intro: convert simp: do_detection_def)
next
  case None
  obtain r1 s1 where p1: "make_drizzled c kw ins s = (r1, s1)"
    by (cases "make_drizzled c kw ins s")
  show ?thesis
  proof (cases r1)
    case (Inl e)
    with None p1 show ?thesis by (auto intro: drizzle simp: do_detection_def)
  next
    case (Inr ds)
    obtain r2 s2 where p2: "init_median c ins ds s1 = (r2, s2)"
      by (cases "init_median c ins ds s1")
    show ?thesis
    proof (cases r2)
      case (Inl e)
      with None p1 p2 Inr show ?thesis by (auto intro: init simp: do_detection_def)
    next
      case mm: (Inr mm)
      show ?thesis
      proof (cases "create_median c (map (view s2) ds) (maskpt kw)")
        case (Inl e)
        with None p1 p2 Inr mm show ?thesis by (auto intro: median simp: do_detection_def)
      next
        case img: (Inr img)
        obtain r4 s4 where p4:
          "finish_intermediates c kw ds (mm\<lparr>data := img\<rparr>) (emit Median_created s2) = (r4, s4)"
          by (cases "finish_intermediates c kw ds (mm\<lparr>data := img\<rparr>) (emit Median_created s2)")
        show ?thesis
        proof (cases r4)
          case None': None
          with None p1 p2 Inr mm img p4 show ?thesis
            by (auto intro: detect simp: do_detection_def Let_def)
        next
          case (Some e)
          with None p1 p2 Inr mm img p4 show ?thesis
            by (auto intro: finish simp: do_detection_def Let_def)
        qed
      qed
    qed
  qed
qed

subsection \<open>The run as a whole\<close>

lemma run_events_after_drizzle:
  assumes "convert_inputs c kw = None" and "make_drizzled c kw ins s = (r, s1)"
  shows "\<exists>rest. run_events c kw ins s = drop (length (trace s)) (trace s1) @ rest
           \<and> list_all (\<lambda>e. e = Median_created \<or> finish_event e \<or> detect_phase_event e) rest"
proof -
  let ?Q = "\<lambda>e. e = Median_created \<or> finish_event e \<or> detect_phase_event e"
  from make_drizzled_events [OF assms(2)] obtain pre where pre: "trace s1 = trace s @ pre"
    by (auto simp: extends_def)
  have "extends ?Q s1 (snd (do_detection c kw ins s))"
  proof (cases rule: do_detection_cases [of c kw ins s])
    case (convert e)
    with assms show ?thesis by simp
  next
    case (drizzle e t1)
    with assms show ?thesis by (simp add: extends_refl)
  next
    case (init ds t1 e t2)
    with assms init_median_frame [OF init(3)] show ?thesis by (simp add: extends_same)
  next
    case (median ds t1 mm t2 e)
    with assms init_median_frame [OF median(3)] show ?thesis by (simp add: extends_same)
  next
    case (finish ds t1 mm t2 img e t4)
    have "extends ?Q s1 (emit Median_created t2)"
      using finish assms init_median_frame [OF finish(3)] by (simp add: extends_def emit_def)
    moreover have "extends ?Q (emit Median_created t2) t4"
      using finish_intermediates_frame [OF finish(5)] by (auto intro: extends_mono)
    ultimately show ?thesis using finish(6) by (auto intro: extends_trans)
  next
    case (detect ds t1 mm t2 img t4)
    obtain r5 t5 where rd: "run_detect_outliers c kw ins (mm\<lparr>data := img\<rparr>) t4 = (r5, t5)"
      by (cases "run_detect_outliers c kw ins (mm\<lparr>data := img\<rparr>) t4")
    have "extends ?Q s1 (emit Median_created t2)"
      using detect assms init_median_frame [OF detect(3)] by (simp add: extends_def emit_def)
    moreover have "extends ?Q (emit Median_created t2) t4"
      using finish_intermediates_frame [OF detect(5)] by (auto intro: extends_mono)
    moreover have "extends ?Q t4 t5"
      using run_detect_outliers_frame [OF rd] by (auto intro: extends_mono)
    ultimately show ?thesis using detect(6) rd by (auto intro: extends_trans)
  qed
  then obtain rest where "trace (snd (do_detection c kw ins s)) = trace s1 @ rest"
    "list_all ?Q rest" by (auto simp: extends_def)
  with pre show ?thesis by (auto simp: run_events_def)
qed

lemma run_events_shape:
  obtains
    (no_median) "list_all drizzle_event (run_events c kw ins s)"
      "fst (do_detection c kw ins s) \<noteq> None"
  | (with_median) pre post where
      "run_events c kw ins s = pre @ Median_created # post"
      "list_all drizzle_event pre"
      "list_all (\<lambda>e. finish_event e \<or> detect_phase_event e) post"
proof (cases rule: do_detection_cases [of c kw ins s])
  case (convert e)
  then show ?thesis by (auto intro: no_median simp: run_events_def)
next
  case (drizzle e s1)
  from make_drizzled_events [OF drizzle(2)] have "extends drizzle_event s s1"
    by (auto intro: extends_mono)
  with drizzle(3) show ?thesis
    by (auto intro!: no_median simp: run_events_def extends_def)
next
  case (init ds s1 e s2)
  from make_drizzled_events [OF init(2)] have "extends drizzle_event s s1"
    by (auto intro: extends_mono)
  with init(4) init_median_frame [OF init(3)] show ?thesis
    by (auto intro!: no_median simp: run_events_def extends_def)
next
  case (median ds s1 mm s2 e)
  from make_drizzled_events [OF median(2)] have "extends drizzle_event s s1"
    by (auto intro: extends_mono)
  with median(5) init_median_frame [OF median(3)] show ?thesis
    by (auto intro!: no_median simp: run_events_def extends_def)
next
  case (finish ds s1 mm s2 img e s4)
  from make_drizzled_events [OF finish(2)] have "extends drizzle_event s s1"
    by (auto intro: extends_mono)
  then obtain pre where pre: "trace s1 = trace s @ pre" "list_all drizzle_event pre"
    by (auto simp: extends_def)
  from finish_intermediates_frame [OF finish(5)] obtain post where
    post: "trace s4 = trace (emit Median_created s2) @ post" "list_all finish_event post"
    by (auto simp: extends_def)
  have eq: "run_events c kw ins s = pre @ Median_created # post"
    using pre post finish(6) init_median_frame [OF finish(3)]
    by (simp add: run_events_def emit_def)
  have "list_all (\<lambda>e. finish_event e \<or> detect_phase_event e) post"
    using post(2) by (simp add: list_all_iff)
  with eq pre(2) show ?thesis by (rule with_median)
next
  case (detect ds s1 mm s2 img s4)
  obtain r5 s5 where rd: "run_detect_outliers c kw ins (mm\<lparr>data := img\<rparr>) s4 = (r5, s5)"
    by (cases "run_detect_outliers c kw ins (mm\<lparr>data := img\<rparr>) s4")
  from make_drizzled_events [OF detect(2)] have "extends drizzle_event s s1"
    by (auto intro: extends_mono)
  then obtain pre where pre: "trace s1 = trace s @ pre" "list_all drizzle_event pre"
    by (auto simp: extends_def)
  from finish_intermediates_frame [OF detect(5)] obtain post where
    post: "trace s4 = trace (emit Median_created s2) @ post" "list_all finish_event post"
    by (auto simp: extends_def)
  from run_detect_outliers_frame [OF rd] obtain det where
    det: "trace s5 = trace s4 @ det" "list_all detect_phase_event det"
    by (auto simp: extends_def)
  have eq: "run_events c kw ins s = pre @ Median_created # (post @ det)"
    using pre post det detect(6) rd init_median_frame [OF detect(3)]
    by (simp add: run_events_def emit_def)
  have "list_all (\<lambda>e. finish_event e \<or> detect_phase_event e) (post @ det)"
    using post(2) det(2) by (auto simp: list_all_iff)
  with eq pre(2) show ?thesis by (rule with_median)
qed

lemma before_detect_frame:
  assumes md: "make_drizzled c kw ins s = (Inr ds, s1)"
    and im: "init_median c ins ds s1 = (r2, s2)"
    and b: "b < next_addr s"
  shows "data (models s2 b) = data (models s b)
         \<and> dq (models s2 b) = dq (models s b)
         \<and> meta (models s2 b) = meta (models s b)
         \<and> next_addr s \<le> next_addr s2
         \<and> (resample_data kw \<longrightarrow> models s2 b = models s b \<and> metas s2 b = metas s b)"
proof -
  note f1 = make_drizzled_frame [OF md b]
  note f2 = init_median_frame [OF im]
  have "metas s2 b = metas s1 b" if rs: "resample_data kw"
  proof -
    from f1 b have "b \<noteq> next_addr s1" by simp
    moreover have "b \<noteq> meta (models s1 d0)" if "ds = d0 # dr" for d0 dr
      using make_drizzled_fresh [OF md rs, of d0] that b by auto
    ultimately show ?thesis using f2 by blast
  qed
  with f1 f2 show ?thesis by simp
qed




subsection \<open>The combiner and the per-exposure loop of the specification\<close>


lemma shape_map_upt: "shape (map g [0 ..< m]) = (m, if m = 0 then 0 else length (g 0))"
  by (cases m) (simp_all add: shape_def upt_conv_Cons del: upt_Suc)

lemma shape_tabulate:
  "shape (map (\<lambda>r. map (f r) [0 ..< snd (shape d0)]) [0 ..< fst (shape d0)]) = shape d0"
  by (cases d0) (simp_all add: shape_map_upt, simp_all add: shape_def)


lemma reprocess_exposure_fails:
  "exposure_fails dsg ref rs v \<Longrightarrow>
     \<exists>e. reprocess_exposure dsg ref th sc bg rs i v = (dq (fst v), [Report_error i e])"
  by (auto simp: exposure_fails_def reprocess_exposure_def split: sum.splits)

lemma reprocess_exposure_works:
  "\<not> exposure_fails dsg ref rs v \<Longrightarrow>
     \<exists>nr. native_reference_of dsg ref rs v = Inr nr
       \<and> reprocess_exposure dsg ref th sc bg rs i v =
           (mask_writer (outlier_bit dsg) (compare dsg (data (fst v)) nr th sc bg rs)
              (dq (fst v)),
            [Compare_exposure i])"
  by (auto simp: exposure_fails_def reprocess_exposure_def split: sum.splits)

lemma reprocess_nth:
  "reprocess dsg ref th sc bg rs i vs = (qs, evs) \<Longrightarrow> j < length vs \<Longrightarrow>
     length qs = length vs
     \<and> qs ! j = fst (reprocess_exposure dsg ref th sc bg rs (i + j) (vs ! j))
     \<and> set (snd (reprocess_exposure dsg ref th sc bg rs (i + j) (vs ! j))) \<subseteq> set evs"
proof (induction vs arbitrary: i j qs evs)
  case Nil
  then show ?case by simp
next
  case (Cons v vs)
  obtain q e1 where one: "reprocess_exposure dsg ref th sc bg rs i v = (q, e1)"
    by (cases "reprocess_exposure dsg ref th sc bg rs i v")
  obtain qs' e2 where rest: "reprocess dsg ref th sc bg rs (Suc i) vs = (qs', e2)"
    by (cases "reprocess dsg ref th sc bg rs (Suc i) vs")
  from Cons.prems(1) one rest have eq: "qs = q # qs'" "evs = e1 @ e2" by simp_all
  have len: "length qs' = length vs"
  proof (cases vs)
    case Nil
    with rest show ?thesis by simp
  next
    case (Cons v' vs')
    with Cons.IH [OF rest, of 0] show ?thesis by simp
  qed
  show ?case
  proof (cases j)
    case 0
    with one eq len show ?thesis by simp
  next
    case (Suc j')
    with Cons.prems(2) have "j' < length vs" by simp
    from Cons.IH [OF rest this] Suc eq show ?thesis by auto
  qed
qed

lemma combine_pixel_no_weight:
  "list_all (\<lambda>p. snd p = 0) col \<Longrightarrow> combine_pixel mp col = None"
proof -
  assume "list_all (\<lambda>p. snd p = 0) col"
  then have "filter (\<lambda>w. w \<noteq> 0) (map snd col) = []"
    by (auto simp: list_all_iff filter_empty_conv)
  then show ?thesis
    by (simp add: combine_pixel_def included_def reference_weight_def)
qed

lemma compare_nth:
  "r < length exposure_data \<Longrightarrow> k < length (exposure_data ! r) \<Longrightarrow>
     compare dsg exposure_data nr th sc bg rs ! r ! k
       = compare_pixel dsg exposure_data nr th sc bg r k"
  by (simp add: compare_def)

section \<open>The concrete runs, evaluated\<close>

lemma example_run_events:
  "run_events example_collaborators example_config example_inputs example_store
     = [Median_created, Compared 0, Compared 1, Compared 2]"
  by (simp add: run_defs spec_defs example_defs)

lemma example_empty_run:
  "do_detection example_collaborators example_config [] example_store
     = (Some IndexError, example_store)"
  by (simp add: run_defs example_defs)



lemma example_saving_events:
  "run_events example_collaborators example_config_saving example_inputs example_store
     = [Resampled,
        Log_info ''Writing out resampled spectra...'', Saved_model 3 ''a.fits_outlier_s2d.fits'',
        Log_info ''Writing out resampled spectra...'', Saved_model 4 ''b.fits_outlier_s2d.fits'',
        Log_info ''Writing out resampled spectra...'', Saved_model 5 ''b.fits_outlier_s2d.fits'',
        Median_created,
        Log_info ''Writing out MEDIAN image to: a.fitsmedian'', Saved_median ''a.fitsmedian'',
        Compared 0, Compared 1, Compared 2]"
  by (simp add: run_defs spec_defs example_defs)

lemma example_saving_drizzled:
  "fst (make_drizzled example_collaborators example_config_saving example_inputs example_store)
     = Inr [3, 4, 5]"
  by (simp add: run_defs example_defs)

lemma example_no_median_run:
  "fst (do_detection example_collaborators_no_median example_config_on_disk example_inputs
          example_store) = Some CombineError"
  "storage (snd (do_detection example_collaborators_no_median example_config_on_disk
                   example_inputs example_store)) = {3, 4, 5}"
  "run_events example_collaborators_no_median example_config_on_disk example_inputs
     example_store = [Resampled]"
  by (simp_all add: run_defs example_defs insert_commute)

lemma example_on_disk_run:
  "fst (make_drizzled example_collaborators example_config_on_disk example_inputs example_store)
     = Inr [3, 4, 5]"
  "storage (snd (make_drizzled example_collaborators example_config_on_disk example_inputs
                   example_store)) = {3, 4, 5}"
  "storage (snd (do_detection example_collaborators example_config_on_disk
                   example_inputs example_store)) = {}"
  "run_events example_collaborators example_config_on_disk example_inputs example_store
     = [Resampled, Median_created, Removed_file 3, Log_removing 3, Removed_file 4,
        Log_removing 4, Removed_file 5, Log_removing 5, Compared 0, Compared 1, Compared 2]"
  by (simp_all add: run_defs spec_defs example_defs insert_commute)






lemma example_failing_detection:
  "detect_outliers_spec example_design_failing example_views example_median (5, 4) (1, 0) 0 True
     = \<lparr>new_dq = [[[0]], [[0]], [[16]]],
        detect_log = [Report_error 0 PerExposureError, Compare_exposure 1, Compare_exposure 2],
        raised = None\<rparr>"
  "exposure_fails example_design_failing (data (fst example_median)) True (example_views ! 0)"
  "\<not> exposure_fails example_design_failing (data (fst example_median)) True (example_views ! 2)"
  "length example_views = 3"
  "dq (fst (example_views ! 0)) = [[0]]"
  by (simp_all add: spec_defs example_defs view_def shape_def example_views_def example_median_def
      exposure_fails_def)

lemma example_uncovered_combine:
  "combine example_uncovered_stack (3 / 10) = Inr [[Some 10, None]]"
  by (simp add: spec_defs example_uncovered_stack_def shape_def upt_conv_Cons)

section \<open>The claims\<close>

subsection \<open>The reference image comes first\<close>

text \<open>
  Claim C1. In every run of \<open>do_detection\<close> the median image is complete before any
  outlier comparison begins: whenever the comparison on some exposure appears among
  the events of a run, the event that marks the return of \<open>create_median\<close> appears
  earlier among them.
\<close>

theorem median_before_any_comparison:
  assumes "k < length (run_events c kw ins s)"
    and "run_events c kw ins s ! k = Compared i"
  shows "\<exists>j<k. run_events c kw ins s ! j = Median_created"
proof (cases rule: run_events_shape [of c kw ins s])
  case no_median
  with assms have "drizzle_event (Compared i)"
    by (metis list_all_length)
  then show ?thesis by simp
next
  case (with_median pre post)
  have "\<not> k < length pre"
  proof
    assume "k < length pre"
    with with_median(1) assms(2) have "pre ! k = Compared i" by (simp add: nth_append)
    with with_median(2) \<open>k < length pre\<close> have "drizzle_event (Compared i)"
      by (metis list_all_length)
    then show False by simp
  qed
  moreover have "k \<noteq> length pre"
    using with_median(1) assms(2) by (auto simp: nth_append)
  ultimately have "length pre < k" by simp
  moreover have "run_events c kw ins s ! length pre = Median_created"
    using with_median(1) by simp
  ultimately show ?thesis by blast
qed

text \<open>
  In the run without resampling the median is created first and the three comparisons
  follow.
\<close>

theorem median_before_any_comparison_witness:
  "1 < length (run_events example_collaborators example_config example_inputs example_store)
   \<and> run_events example_collaborators example_config example_inputs example_store ! 1 = Compared 0
   \<and> (\<exists>j<1. run_events example_collaborators example_config example_inputs example_store ! j
               = Median_created)"
  using median_before_any_comparison
    [of 1 example_collaborators example_config example_inputs example_store 0]
  by (simp add: example_run_events)

subsection \<open>What a run changes in an exposure\<close>




subsection \<open>The reference grid without resampling\<close>



subsection \<open>When the mosaics are saved\<close>

text \<open>
  Claim C4. The drizzled mosaics are saved if and only if saving intermediate results
  is requested and resampling is performed. No run saves a mosaic otherwise; and in a
  run that gets past the resampling stage with the drizzled models \<open>ds\<close>, the models
  saved are exactly \<open>ds\<close> when both options are on, and none when either is off (in
  particular when \<open>resample_data\<close> is off, whatever \<open>save_intermediate_results\<close> is).
\<close>

theorem mosaics_saved_iff:
  "(Saved_model a fn \<in> set (run_events c kw ins s)
      \<longrightarrow> save_intermediate_results kw \<and> resample_data kw)
   \<and> (convert_inputs c kw = None \<longrightarrow> make_drizzled c kw ins s = (Inr ds, s1)
      \<longrightarrow> {a'. \<exists>fn'. Saved_model a' fn' \<in> set (run_events c kw ins s)}
            = (if save_intermediate_results kw \<and> resample_data kw then set ds else {}))"
proof (rule conjI)
  show "convert_inputs c kw = None \<longrightarrow> make_drizzled c kw ins s = (Inr ds, s1)
      \<longrightarrow> {a'. \<exists>fn'. Saved_model a' fn' \<in> set (run_events c kw ins s)}
            = (if save_intermediate_results kw \<and> resample_data kw then set ds else {})"
  proof (intro impI)
  assume conv: "convert_inputs c kw = None" and md: "make_drizzled c kw ins s = (Inr ds, s1)"
  let ?E1 = "drop (length (trace s)) (trace s1)"
  from run_events_after_drizzle [OF conv md] obtain rest where
    rest: "run_events c kw ins s = ?E1 @ rest"
    "list_all (\<lambda>e. e = Median_created \<or> finish_event e \<or> detect_phase_event e) rest"
    by blast
  have no_rest: "Saved_model a' fn' \<notin> set rest" for a' fn'
    using rest(2) by (auto simp: list_all_iff)
  have E1: "list_all (\<lambda>e. drizzle_event e \<and> (\<forall>a fn. e = Saved_model a fn \<longrightarrow>
               save_intermediate_results kw \<and> resample_data kw
               \<and> (\<forall>ds'. Inr ds = (Inr ds' :: error + addr list) \<longrightarrow> a \<in> set ds'))) ?E1"
    using make_drizzled_events [OF md] by (rule extends_eventsD)
  show "{a'. \<exists>fn'. Saved_model a' fn' \<in> set (run_events c kw ins s)}
            = (if save_intermediate_results kw \<and> resample_data kw then set ds else {})"
  proof (cases "save_intermediate_results kw \<and> resample_data kw")
    case True
    have "\<exists>fn'. Saved_model a' fn' \<in> set ?E1" if "a' \<in> set ds" for a'
      using make_drizzled_saved [OF md _ _ that] True by simp
    moreover have "a' \<in> set ds" if "Saved_model a' fn' \<in> set ?E1" for a' fn'
      using E1 that by (auto simp: list_all_iff)
    ultimately show ?thesis using True rest(1) no_rest by auto
  next
    case False
    have "Saved_model a' fn' \<notin> set ?E1" for a' fn'
      using E1 False by (auto simp: list_all_iff)
    with False rest(1) no_rest show ?thesis by auto
  qed
  qed
next
  show "Saved_model a fn \<in> set (run_events c kw ins s)
      \<longrightarrow> save_intermediate_results kw \<and> resample_data kw"
  proof
  assume saved: "Saved_model a fn \<in> set (run_events c kw ins s)"
  show "save_intermediate_results kw \<and> resample_data kw"
  proof (cases "convert_inputs c kw")
    case (Some e)
    then have "run_events c kw ins s = []" by (simp add: run_events_def do_detection_def)
    with saved show ?thesis by simp
  next
    case None
    obtain r s1 where md: "make_drizzled c kw ins s = (r, s1)"
      by (cases "make_drizzled c kw ins s")
    from run_events_after_drizzle [OF None md] obtain rest where
      rest: "run_events c kw ins s = drop (length (trace s)) (trace s1) @ rest"
      "list_all (\<lambda>e. e = Median_created \<or> finish_event e \<or> detect_phase_event e) rest"
      by blast
    have "Saved_model a fn \<notin> set rest"
      using rest(2) by (auto simp: list_all_iff)
    with saved rest(1) have "Saved_model a fn \<in> set (drop (length (trace s)) (trace s1))"
      by simp
    with extends_eventsD [OF make_drizzled_events [OF md]] show ?thesis
      by (auto simp: list_all_iff)
  qed
  qed
qed

text \<open>
  The run that resamples and saves: the three mosaics, at the addresses 3, 4 and 5, are
  the models saved.
\<close>

theorem mosaics_saved_iff_witness:
  "Saved_model 3 ''a.fits_outlier_s2d.fits''
     \<in> set (run_events example_collaborators example_config_saving example_inputs example_store)
   \<and> save_intermediate_results example_config_saving
   \<and> resample_data example_config_saving
   \<and> convert_inputs example_collaborators example_config_saving = None
   \<and> fst (make_drizzled example_collaborators example_config_saving example_inputs
             example_store) = Inr [3, 4, 5]
   \<and> {a'. \<exists>fn'. Saved_model a' fn'
             \<in> set (run_events example_collaborators example_config_saving example_inputs
                      example_store)} = {3, 4, 5}"
proof -
  let ?md = "make_drizzled example_collaborators example_config_saving example_inputs
               example_store"
  have md: "?md = (Inr [3, 4, 5], snd ?md)"
    using example_saving_drizzled by (simp add: prod_eq_iff)
  have conv: "convert_inputs example_collaborators example_config_saving = None"
    by (simp add: example_defs)
  have cfg: "save_intermediate_results example_config_saving"
    "resample_data example_config_saving"
    by (simp_all add: example_defs)
  have saved: "Saved_model 3 ''a.fits_outlier_s2d.fits''
     \<in> set (run_events example_collaborators example_config_saving example_inputs example_store)"
    by (simp add: example_saving_events)
  from mosaics_saved_iff [of 3 "''a.fits_outlier_s2d.fits''" example_collaborators
      example_config_saving example_inputs example_store "[3, 4, 5]" "snd ?md"]
    md conv cfg saved example_saving_drizzled
  show ?thesis by simp
qed

subsection \<open>Release of the mosaics\<close>

text \<open>
  Claim C5, as amended. With \<open>save_intermediate_results\<close> and \<open>in_memory\<close> both off, once
  \<open>create_median\<close> has returned the median image every drizzled model is released:
  \<open>_remove_file\<close> is called on it after the median exists and before any outlier
  comparison, and its entry is gone from the storage when the run ends, whether
  \<open>detect_outliers\<close> then raises or not. Nothing is promised for a run that ends
  before the median exists.
\<close>

theorem mosaics_released_once_median_exists:
  assumes "\<not> save_intermediate_results kw" and "\<not> in_memory kw"
    and "convert_inputs c kw = None"
    and "make_drizzled c kw ins s = (Inr ds, s1)"
    and "Median_created \<in> set (run_events c kw ins s)"
    and "a \<in> set ds"
  shows "a \<notin> storage (snd (do_detection c kw ins s))
         \<and> (\<exists>pre post. run_events c kw ins s = pre @ Removed_file a # post
               \<and> Median_created \<in> set pre
               \<and> list_all (\<lambda>e. \<not> detect_phase_event e) pre)"
proof -
  have quiet: "list_all (\<lambda>e. \<not> detect_phase_event e \<and> e \<noteq> Median_created) evs"
    if "list_all drizzle_event evs" for evs
  proof -
    have "\<not> detect_phase_event e \<and> e \<noteq> Median_created" if "drizzle_event e" for e
      using that by (cases e) simp_all
    with that show ?thesis by (auto simp: list_all_iff)
  qed
  from make_drizzled_events [OF assms(4)] have "extends drizzle_event s s1"
    by (auto intro: extends_mono)
  then obtain E1 where E1: "trace s1 = trace s @ E1" "list_all drizzle_event E1"
    by (auto simp: extends_def)
  show ?thesis
  proof (cases rule: do_detection_cases [of c kw ins s])
    case (convert e)
    with assms(3) show ?thesis by simp
  next
    case (drizzle e t1)
    with assms(4) show ?thesis by simp
  next
    case (init ds' t1 e t2)
    with assms(4) E1 init_median_frame [OF init(3)]
    have "run_events c kw ins s = E1" by (simp add: run_events_def)
    with quiet [OF E1(2)] assms(5) show ?thesis by (auto simp: list_all_iff)
  next
    case (median ds' t1 mm t2 e)
    with assms(4) E1 init_median_frame [OF median(3)]
    have "run_events c kw ins s = E1" by (simp add: run_events_def)
    with quiet [OF E1(2)] assms(5) show ?thesis by (auto simp: list_all_iff)
  next
    case (finish ds' t1 mm t2 img e t4)
    from finish_intermediates_error [OF finish(5)] assms(1) show ?thesis by simp
  next
    case (detect ds' t1 mm t2 img t4)
    with assms(4) have eq: "ds' = ds" "t1 = s1" by simp_all
    let ?t3 = "emit Median_created t2"
    from detect(5) finish_intermediates_release [OF assms(1,2), of c ds' "mm\<lparr>data := img\<rparr>" ?t3]
    have t4: "t4 = remove_files ds ?t3" using eq by simp
    obtain r5 t5 where rd: "run_detect_outliers c kw ins (mm\<lparr>data := img\<rparr>) t4 = (r5, t5)"
      by (cases "run_detect_outliers c kw ins (mm\<lparr>data := img\<rparr>) t4")
    from remove_files_events [of ?t3 ds] t4 obtain E2 where
      E2: "trace t4 = trace ?t3 @ E2" "list_all finish_event E2"
      by (auto simp: extends_def)
    from remove_files_removed [OF assms(6), of ?t3] t4 E2(1)
    have "Removed_file a \<in> set E2" by simp
    then obtain x y where xy: "E2 = x @ Removed_file a # y"
      by (auto dest: split_list)
    from run_detect_outliers_frame [OF rd] obtain E3 where
      E3: "trace t5 = trace t4 @ E3" by (auto simp: extends_def)
    have t3: "trace ?t3 = trace s @ E1 @ [Median_created]"
      using init_median_frame [OF detect(3)] E1(1) eq by (simp add: emit_def)
    have ev: "run_events c kw ins s = (E1 @ Median_created # x) @ Removed_file a # (y @ E3)"
      using detect(6) rd E3 E2(1) xy t3 by (simp add: run_events_def)
    have "\<not> detect_phase_event e" if "finish_event e" for e using that by (cases e) simp_all
    with E2(2) xy have "list_all (\<lambda>e. \<not> detect_phase_event e) x"
      by (auto simp: list_all_iff)
    with quiet [OF E1(2)] have "list_all (\<lambda>e. \<not> detect_phase_event e) (E1 @ Median_created # x)"
      by (auto simp: list_all_iff)
    moreover have "Median_created \<in> set (E1 @ Median_created # x)" by simp
    moreover have "a \<notin> storage t5"
      using run_detect_outliers_frame [OF rd] t4 remove_files_frame [of ds ?t3] assms(6)
      by simp
    ultimately show ?thesis using ev detect(6) rd by (metis snd_conv)
  qed
qed

text \<open>
  The run that resamples with the mosaics in files: mosaic 4 is in a file after
  resampling, is removed after the median exists, and is gone at the end.
\<close>

theorem mosaics_released_once_median_exists_witness:
  "\<not> save_intermediate_results example_config_on_disk
   \<and> \<not> in_memory example_config_on_disk
   \<and> convert_inputs example_collaborators example_config_on_disk = None
   \<and> fst (make_drizzled example_collaborators example_config_on_disk example_inputs
            example_store) = Inr [3, 4, 5]
   \<and> 4 \<in> storage (snd (make_drizzled example_collaborators example_config_on_disk
                          example_inputs example_store))
   \<and> Median_created \<in> set (run_events example_collaborators example_config_on_disk
                              example_inputs example_store)
   \<and> 4 \<notin> storage (snd (do_detection example_collaborators example_config_on_disk
                          example_inputs example_store))
   \<and> (\<exists>pre post. run_events example_collaborators example_config_on_disk example_inputs
                     example_store = pre @ Removed_file 4 # post
          \<and> Median_created \<in> set pre
          \<and> list_all (\<lambda>e. \<not> detect_phase_event e) pre)"
proof -
  let ?md = "make_drizzled example_collaborators example_config_on_disk example_inputs
               example_store"
  have h1: "\<not> save_intermediate_results example_config_on_disk"
    and h2: "\<not> in_memory example_config_on_disk"
    and h3: "convert_inputs example_collaborators example_config_on_disk = None"
    by (simp_all add: example_defs)
  have h4: "?md = (Inr [3, 4, 5], snd ?md)"
    using example_on_disk_run(1) by (simp add: prod_eq_iff)
  have h5: "Median_created \<in> set (run_events example_collaborators example_config_on_disk
                              example_inputs example_store)"
    by (simp add: example_on_disk_run)
  have h6: "(4::nat) \<in> set [3, 4, 5]" by simp
  from mosaics_released_once_median_exists [OF h1 h2 h3 h4 h5 h6] h1 h2 h3 h5
    example_on_disk_run(1,2)
  show ?thesis by simp
qed

text \<open>
  As the claim is written it fails when the combiner raises: the run ends with the
  combiner's error after resampling, \<open>_remove_file\<close> is never called, and
  the three mosaics are still in their files.
\<close>

theorem mosaics_left_when_median_fails:
  "\<not> save_intermediate_results example_config_on_disk
   \<and> \<not> in_memory example_config_on_disk
   \<and> fst (do_detection example_collaborators_no_median example_config_on_disk example_inputs
            example_store) = Some CombineError
   \<and> run_events example_collaborators_no_median example_config_on_disk example_inputs
        example_store = [Resampled]
   \<and> storage (snd (do_detection example_collaborators_no_median example_config_on_disk
                      example_inputs example_store)) = {3, 4, 5}"
  by (simp add: example_no_median_run) (simp add: example_defs)

subsection \<open>A write that fails\<close>




subsection \<open>A failure on one exposure\<close>

text \<open>
  Claim C7. Once the reference image exists, a failure while projecting or comparing
  one exposure stays with that exposure: its quality array is left as it was and the
  failure is reported; any other exposure is compared and its mask written whatever
  happened to the rest; and the detection step raises nothing, so the run is not
  aborted.
\<close>

theorem failure_on_one_exposure_is_contained:
  assumes "i < length vs"
  shows "raised (detect_outliers_spec dsg vs mm th sc bg rs) = None
         \<and> length (new_dq (detect_outliers_spec dsg vs mm th sc bg rs)) = length vs
         \<and> (exposure_fails dsg (data (fst mm)) rs (vs ! i) \<longrightarrow>
               new_dq (detect_outliers_spec dsg vs mm th sc bg rs) ! i = dq (fst (vs ! i))
               \<and> (\<exists>e. Report_error i e
                         \<in> set (detect_log (detect_outliers_spec dsg vs mm th sc bg rs))))
         \<and> (\<not> exposure_fails dsg (data (fst mm)) rs (vs ! i) \<longrightarrow>
               (\<exists>nr. native_reference_of dsg (data (fst mm)) rs (vs ! i) = Inr nr
                  \<and> new_dq (detect_outliers_spec dsg vs mm th sc bg rs) ! i
                      = mask_writer (outlier_bit dsg)
                          (compare dsg (data (fst (vs ! i))) nr th sc bg rs)
                          (dq (fst (vs ! i))))
               \<and> Compare_exposure i
                     \<in> set (detect_log (detect_outliers_spec dsg vs mm th sc bg rs)))
         \<and> fst (run_detect_outliers (c\<lparr>detect_outliers := detect_outliers_spec dsg\<rparr>)
                  kw ins m s) = None"
proof -
  let ?ref = "data (fst mm)"
  obtain qs evs where run: "reprocess dsg ?ref th sc bg rs 0 vs = (qs, evs)"
    by (cases "reprocess dsg ?ref th sc bg rs 0 vs")
  then have d: "detect_outliers_spec dsg vs mm th sc bg rs
                  = \<lparr>new_dq = qs, detect_log = evs, raised = None\<rparr>"
    by (simp add: detect_outliers_spec_def)
  from reprocess_nth [OF run assms] have nth: "length qs = length vs"
    "qs ! i = fst (reprocess_exposure dsg ?ref th sc bg rs i (vs ! i))"
    "set (snd (reprocess_exposure dsg ?ref th sc bg rs i (vs ! i))) \<subseteq> set evs"
    by simp_all
  have fails: "qs ! i = dq (fst (vs ! i)) \<and> (\<exists>e. Report_error i e \<in> set evs)"
    if "exposure_fails dsg ?ref rs (vs ! i)"
    using reprocess_exposure_fails [OF that, of th sc bg i] nth by auto
  have works: "(\<exists>nr. native_reference_of dsg ?ref rs (vs ! i) = Inr nr
                  \<and> qs ! i = mask_writer (outlier_bit dsg)
                          (compare dsg (data (fst (vs ! i))) nr th sc bg rs)
                          (dq (fst (vs ! i))))
               \<and> Compare_exposure i \<in> set evs"
    if "\<not> exposure_fails dsg ?ref rs (vs ! i)"
    using reprocess_exposure_works [OF that, of th sc bg i] nth by auto
  have "fst (run_detect_outliers (c\<lparr>detect_outliers := detect_outliers_spec dsg\<rparr>)
                  kw ins m s) = None"
    by (simp add: run_detect_outliers_def Let_def detect_outliers_spec_def split: prod.splits)
  with d nth(1) fails works show ?thesis by simp
qed

text \<open>
  With a back-projection that fails on the first exposure: that exposure keeps its
  quality array and the failure is reported, exposure 2 is compared, and nothing is
  raised.
\<close>

theorem failure_on_one_exposure_is_contained_witness:
  "0 < length example_views
   \<and> 2 < length example_views
   \<and> exposure_fails example_design_failing (data (fst example_median)) True (example_views ! 0)
   \<and> \<not> exposure_fails example_design_failing (data (fst example_median)) True
         (example_views ! 2)
   \<and> new_dq (detect_outliers_spec example_design_failing example_views example_median
               (5, 4) (1, 0) 0 True) ! 0 = dq (fst (example_views ! 0))
   \<and> (\<exists>e. Report_error 0 e
             \<in> set (detect_log (detect_outliers_spec example_design_failing example_views
                                   example_median (5, 4) (1, 0) 0 True)))
   \<and> Compare_exposure 2
         \<in> set (detect_log (detect_outliers_spec example_design_failing example_views
                               example_median (5, 4) (1, 0) 0 True))
   \<and> raised (detect_outliers_spec example_design_failing example_views example_median
               (5, 4) (1, 0) 0 True) = None"
proof -
  have h0: "0 < length example_views" and h2: "2 < length example_views"
    by (simp_all add: example_failing_detection(4))
  from failure_on_one_exposure_is_contained [OF h0, of example_design_failing example_median
      "(5, 4)" "(1, 0)" 0 True example_collaborators example_config example_inputs
      "fst example_median" example_store]
    failure_on_one_exposure_is_contained [OF h2, of example_design_failing example_median
      "(5, 4)" "(1, 0)" 0 True example_collaborators example_config example_inputs
      "fst example_median" example_store]
    h0 h2 example_failing_detection(2,3)
  show ?thesis by blast
qed

subsection \<open>An empty exposure set\<close>

text \<open>
  Claim C8. A run on an empty exposure set, or on an empty mosaic stack, is fatal: it
  ends with an error, \<open>create_median\<close> never returns a median image, and the quality
  array of every model that existed before the run is what it was.
\<close>

theorem empty_exposure_set_is_fatal:
  assumes "ins = [] \<or> (convert_inputs c kw = None \<and> fst (make_drizzled c kw ins s) = Inr [])"
  shows "fst (do_detection c kw ins s) \<noteq> None
         \<and> Median_created \<notin> set (run_events c kw ins s)
         \<and> (\<forall>a < next_addr s.
               dq (models (snd (do_detection c kw ins s)) a) = dq (models s a))"
proof -
  have no_init: False if "make_drizzled c kw ins s = (Inr ds, s1)"
    "init_median c ins ds s1 = (Inr mm, s2)" for ds s1 mm s2
    using assms init_median_ok [OF that(2)] that(1) by auto
  have quiet: "Median_created \<notin> set evs" if "list_all drizzle_event evs" for evs
    using that by (auto simp: list_all_iff)
  show ?thesis
  proof (cases rule: do_detection_cases [of c kw ins s])
    case (convert e)
    then show ?thesis by (simp add: run_events_def)
  next
    case (drizzle e s1)
    from make_drizzled_events [OF drizzle(2)] have "extends drizzle_event s s1"
      by (auto intro: extends_mono)
    from extends_eventsD [OF this] drizzle(3) make_drizzled_frame [OF drizzle(2)]
    show ?thesis by (auto simp: run_events_def dest: quiet)
  next
    case (init ds s1 e s2)
    from make_drizzled_events [OF init(2)] have "extends drizzle_event s s1"
      by (auto intro: extends_mono)
    from extends_eventsD [OF this] init(4) init_median_frame [OF init(3)]
      before_detect_frame [OF init(2) init(3)]
    show ?thesis by (auto simp: run_events_def dest: quiet)
  next
    case (median ds s1 mm s2 e)
    with no_init show ?thesis by blast
  next
    case (finish ds s1 mm s2 img e s4)
    with no_init show ?thesis by blast
  next
    case (detect ds s1 mm s2 img s4)
    with no_init show ?thesis by blast
  qed
qed

text \<open>
  The run on no exposure at all ends with \<open>IndexError\<close>, before any median.
\<close>

theorem empty_exposure_set_is_fatal_witness:
  "fst (do_detection example_collaborators example_config [] example_store) = Some IndexError
   \<and> Median_created \<notin> set (run_events example_collaborators example_config [] example_store)
   \<and> dq (models (snd (do_detection example_collaborators example_config [] example_store)) 2)
       = dq (models example_store 2)"
  using empty_exposure_set_is_fatal [of "[]" example_collaborators example_config example_store]
  by (simp add: example_empty_run)

subsection \<open>Positions without weight\<close>

text \<open>
  Claim C9. At a pixel position of the grid where every member of the mosaic stack has
  zero weight, the combined reference image is non-finite, and the comparator does not
  flag that position in any exposure, be the native reference the reference image
  itself or any image that is non-finite there.
\<close>

theorem uncovered_position_is_never_flagged:
  assumes "combine mosaics mp = Inr reference"
    and "r < fst (shape reference)" and "k < snd (shape reference)"
    and "list_all (\<lambda>m. snd m ! r ! k = 0) mosaics"
    and "r < length exposure_data" and "k < length (exposure_data ! r)"
  shows "reference ! r ! k = None
         \<and> \<not> compare dsg exposure_data reference th sc bg rs ! r ! k
         \<and> (\<forall>nr. nr ! r ! k = None \<longrightarrow> \<not> compare dsg exposure_data nr th sc bg rs ! r ! k)"
proof -
  from assms(1) obtain d0 w0 rest where ms: "mosaics = (d0, w0) # rest"
    by (cases mosaics) (auto simp: combine_def)
  with assms(1) have ref: "reference =
      map (\<lambda>r. map (\<lambda>k. combine_pixel mp (column mosaics r k)) [0 ..< snd (shape d0)])
          [0 ..< fst (shape d0)]"
    by (auto simp: combine_def split: if_splits)
  then have "shape reference = shape d0" by (simp add: shape_tabulate)
  with assms(2,3) ref have "reference ! r ! k = combine_pixel mp (column mosaics r k)"
    by simp
  moreover have "list_all (\<lambda>p. snd p = 0) (column mosaics r k)"
    using assms(4) by (auto simp: column_def list_all_iff)
  ultimately have none: "reference ! r ! k = None"
    by (simp add: combine_pixel_no_weight)
  have "\<not> compare dsg exposure_data nr th sc bg rs ! r ! k" if "nr ! r ! k = None" for nr
    using that assms(5,6) by (simp add: compare_nth compare_pixel_def)
  with none show ?thesis by simp
qed

text \<open>
  A stack of two mosaics whose second pixel has no weight in either: the reference is
  non-finite there, and an exposure reading 100 there is not flagged.
\<close>

theorem uncovered_position_is_never_flagged_witness:
  "combine example_uncovered_stack (3 / 10) = Inr [[Some 10, None]]
   \<and> list_all (\<lambda>m. snd m ! 0 ! 1 = 0) example_uncovered_stack
   \<and> [[Some 10, None]] ! 0 ! 1 = (None :: pixel)
   \<and> \<not> compare example_design [[Some 10, Some 100]] [[Some 10, None]] (5, 4) (1, 0) 0 False
         ! 0 ! 1"
proof -
  have h2: "0 < fst (shape [[Some (10::real), None]])"
    and h3: "1 < snd (shape [[Some (10::real), None]])"
    by (simp_all add: shape_def)
  have h4: "list_all (\<lambda>m. snd m ! 0 ! 1 = 0) example_uncovered_stack"
    by (simp add: example_uncovered_stack_def)
  have h5: "0 < length [[Some (10::real), Some 100]]"
    and h6: "1 < length ([[Some (10::real), Some 100]] ! 0)"
    by simp_all
  from uncovered_position_is_never_flagged [OF example_uncovered_combine h2 h3 h4 h5 h6,
      of example_design "(5, 4)" "(1, 0)" 0 False] example_uncovered_combine h4
  show ?thesis by blast
qed

subsection \<open>The metadata node of the median model\<close>



end
